theory Spec2Isabelle
  imports Main "HOL-Library.AList" "HOL-Library.Sublist"
begin

section \<open>Text and dictionaries\<close>

text \<open>
  A Python \<open>str\<close> is a sequence of Unicode code points. The citation markers use the
  private-use code points U+E200, U+E201 and U+E202, which do not fit into the 8-bit
  \<open>char\<close> of HOL, so a text is a list of code points, each a natural number.
  \<open>u\<close> reads an ASCII literal as such a text.
\<close>

type_synonym ustring = "nat list"

definition u :: "string \<Rightarrow> ustring" where
  "u s = map of_char s"

text \<open>\<open>str(n)\<close> for a non-negative integer, as the f-strings print \<open>num\<close>.\<close>

fun str_nat :: "nat \<Rightarrow> ustring" where
  "str_nat n = (if n < 10 then [48 + n] else str_nat (n div 10) @ [48 + n mod 10])"

declare str_nat.simps [simp del]

text \<open>
  A \<open>dict\<close> keeps its keys in insertion order: an association list. \<open>d[k] = v\<close>
  replaces the value in place when the key is there and appends the pair otherwise,
  \<open>d.get(k)\<close> is \<open>map_of d k\<close>, \<open>d.update(e)\<close> assigns the items of \<open>e\<close> in order,
  and a dict comprehension assigns its items to an empty \<open>dict\<close> in order.
\<close>

definition dict_set :: "'k \<Rightarrow> 'v \<Rightarrow> ('k \<times> 'v) list \<Rightarrow> ('k \<times> 'v) list" where
  "dict_set k v d = AList.update k v d"

definition dict_update :: "('k \<times> 'v) list \<Rightarrow> ('k \<times> 'v) list \<Rightarrow> ('k \<times> 'v) list" where
  "dict_update d e = fold (\<lambda>(k, v). dict_set k v) e d"

definition dict_of_items :: "('k \<times> 'v) list \<Rightarrow> ('k \<times> 'v) list" where
  "dict_of_items kvs = dict_update [] kvs"

text \<open>Truthiness of an optional text: \<open>None\<close>, a missing key and \<open>''\<close> are all falsy.\<close>

fun truthy :: "ustring option \<Rightarrow> bool" where
  "truthy None = False"
| "truthy (Some s) = (s \<noteq> [])"

section \<open>The citation normalizer (\<open>copilot_client.py\<close>)\<close>

subsection \<open>The marker pattern\<close>

text \<open>
  \<open>clean_citations\<close> rewrites the text with \<open>re.sub(pattern, replace_citation, text)\<close>.
  The pattern is the six code points U+E200 \<open>c i t e\<close> U+E202, then at least one
  character that is not a newline, taken lazily, then U+E201. A match at a position is
  therefore: the literal prefix, one character other than a newline (it may be U+E201
  itself), then everything up to the first U+E201, provided no newline comes before it.
\<close>

definition open_marker :: ustring where
  "open_marker = [0xE200] @ u ''cite'' @ [0xE202]"

definition close_marker :: nat where
  "close_marker = 0xE201"

definition newline :: nat where
  "newline = 10"

fun until_close :: "ustring \<Rightarrow> ustring \<Rightarrow> (ustring \<times> ustring) option" where
  "until_close acc [] = None"
| "until_close acc (d # rest) =
     (if d = close_marker then Some (acc, rest)
      else if d = newline then None
      else until_close (acc @ [d]) rest)"

text \<open>
  \<open>match_marker s\<close> matches the pattern at the start of \<open>s\<close>: it returns group 1 and
  the text after the match.
\<close>

definition match_marker :: "ustring \<Rightarrow> (ustring \<times> ustring) option" where
  "match_marker s =
     (if prefix open_marker s then
        (case drop (length open_marker) s of
           [] \<Rightarrow> None
         | c # rest \<Rightarrow> if c = newline then None else until_close [c] rest)
      else None)"

text \<open>
  \<open>re.sub\<close> walks the text from the left: where the pattern matches, the match is
  handed to the callback and the walk goes on after the match; elsewhere one character
  is copied and the walk moves on by one. \<open>scan\<close> is this walk, \<open>sub_pieces\<close> calls the
  callback on each match, threading the state the callback closes over.
\<close>

datatype piece = Lit nat | Marker ustring

function scan :: "ustring \<Rightarrow> piece list" where
  "scan [] = []"
| "scan (c # cs) =
     (case match_marker (c # cs) of
        Some (cid, rest) \<Rightarrow> Marker cid # scan rest
      | None \<Rightarrow> Lit c # scan cs)"
  by pat_completeness auto
termination
proof (relation "measure length")
  show "wf (measure length)" by simp
next
  fix c :: nat and cs cid rest :: ustring and x2 :: "ustring \<times> ustring"
  assume m: "match_marker (c # cs) = Some x2" and x2: "(cid, rest) = x2"
  have shorter: "length r < length s" if "until_close acc s = Some (i, r)" for acc s i r
    using that
  proof (induction s arbitrary: acc)
    case Nil
    then show ?case by simp
  next
    case (Cons d s)
    show ?case
    proof (cases "d = close_marker \<or> d = newline")
      case True
      with Cons.prems show ?thesis by (auto split: if_splits)
    next
      case False
      with Cons.prems have "until_close (acc @ [d]) s = Some (i, r)" by simp
      from Cons.IH [OF this] show ?thesis by simp
    qed
  qed
  from m x2 obtain d tl where dr: "drop (length open_marker) (c # cs) = d # tl"
    and uc: "until_close [d] tl = Some (cid, rest)"
    by (auto simp: match_marker_def split: if_splits list.splits)
  have "length rest < length tl" using uc by (rule shorter)
  moreover have "length tl < length (c # cs)"
    using arg_cong [OF dr, of length] by simp
  ultimately show "(rest, c # cs) \<in> measure length" by simp
next
  fix c :: nat and cs :: ustring
  show "(cs, c # cs) \<in> measure length" by simp
qed

fun sub_pieces :: "(ustring \<Rightarrow> 's \<Rightarrow> ustring \<times> 's) \<Rightarrow> piece list \<Rightarrow> 's \<Rightarrow> ustring \<times> 's" where
  "sub_pieces repl [] st = ([], st)"
| "sub_pieces repl (Lit c # ps) st =
     (let (out, st') = sub_pieces repl ps st in (c # out, st'))"
| "sub_pieces repl (Marker cid # ps) st =
     (let (r, st1) = repl cid st;
          (out, st2) = sub_pieces repl ps st1
      in (r @ out, st2))"

definition re_sub :: "(ustring \<Rightarrow> 's \<Rightarrow> ustring \<times> 's) \<Rightarrow> ustring \<Rightarrow> 's \<Rightarrow> ustring \<times> 's" where
  "re_sub repl text st = sub_pieces repl (scan text) st"

subsection \<open>\<open>clean_citations\<close>\<close>

text \<open>
  One value of \<open>citation_metadata\<close>: a dict that may or may not have the keys
  \<open>'url'\<close> and \<open>'title'\<close> (\<open>None\<close> is a missing key).
\<close>

record cite_meta =
  meta_url :: "ustring option"
  meta_title :: "ustring option"

text \<open>One value of the registry \<open>citations\<close>: \<open>{'num', 'url', 'title'}\<close>.\<close>

record citation =
  cit_num :: nat
  cit_url :: ustring
  cit_title :: ustring

text \<open>One value of the returned \<open>citations_by_num\<close>: \<open>{'id', 'url', 'title'}\<close>.\<close>

record reference =
  ref_id :: ustring
  ref_url :: ustring
  ref_title :: ustring

text \<open>\<open>d.get(key, default)\<close> on an optional field.\<close>

fun get_default :: "'a option \<Rightarrow> 'a \<Rightarrow> 'a" where
  "get_default None d = d"
| "get_default (Some v) d = v"

definition html_link :: "ustring \<Rightarrow> nat \<Rightarrow> ustring" where
  "html_link url num =
     u ''<a href='' @ [34] @ url @ [34] @ u '' target='' @ [34] @ u ''_blank'' @ [34]
     @ u '' style='' @ [34] @ u ''text-decoration:none;color:#0066cc;'' @ [34]
     @ u ''><sup>['' @ str_nat num @ u '']</sup></a>''"

definition render_marker :: "bool \<Rightarrow> ustring \<Rightarrow> nat \<Rightarrow> ustring" where
  "render_marker use_html url num =
     (if use_html \<and> url \<noteq> [] then html_link url num
      else u ''['' @ str_nat num @ u '']'')"

text \<open>
  The callback. Its state is what it closes over: the registry \<open>citations\<close> and the
  counter \<open>citation_counter[0]\<close>.
\<close>

definition replace_citation ::
  "bool \<Rightarrow> (ustring \<times> cite_meta) list \<Rightarrow> ustring
    \<Rightarrow> (ustring \<times> citation) list \<times> nat \<Rightarrow> ustring \<times> (ustring \<times> citation) list \<times> nat" where
  "replace_citation use_html citation_metadata citation_id st =
     (let (citations, citation_counter) = st;
          (cite_info, citations', citation_counter') =
            (case map_of citations citation_id of
               None \<Rightarrow>
                 (let num = citation_counter + 1;
                      meta = get_default (map_of citation_metadata citation_id)
                               \<lparr>meta_url = None, meta_title = None\<rparr>;
                      info = \<lparr>cit_num = num,
                              cit_url = get_default (meta_url meta) [],
                              cit_title = get_default (meta_title meta) (u ''Source '' @ str_nat num)\<rparr>
                  in (info, dict_set citation_id info citations, num))
             | Some info \<Rightarrow> (info, citations, citation_counter))
      in (render_marker use_html (cit_url cite_info) (cit_num cite_info),
          citations', citation_counter'))"

definition clean_citations ::
  "ustring \<Rightarrow> bool \<Rightarrow> (ustring \<times> cite_meta) list \<Rightarrow> ustring \<times> (nat \<times> reference) list" where
  "clean_citations text use_html citation_metadata =
     (if text = [] then (text, [])
      else
        (let (cleaned, citations, citation_counter) =
               re_sub (replace_citation use_html citation_metadata) text ([], 0);
             citations_by_num =
               dict_of_items
                 (map (\<lambda>(k, v). (cit_num v, \<lparr>ref_id = k, ref_url = cit_url v, ref_title = cit_title v\<rparr>))
                    citations)
         in (cleaned, citations_by_num)))"


text \<open>
  \<open>format_references_html\<close>: the footer, one line per number in ascending order.
  Every value of \<open>citations_by_num\<close> has the keys \<open>'title'\<close> and \<open>'url'\<close>, so the
  defaults of its two \<open>get\<close> calls are never taken.
\<close>

definition reference_line :: "nat \<Rightarrow> reference \<Rightarrow> ustring" where
  "reference_line num cite =
     (if ref_url cite \<noteq> [] then
        u ''<a href='' @ [34] @ ref_url cite @ [34] @ u '' target='' @ [34] @ u ''_blank'' @ [34]
        @ u '' style='' @ [34] @ u ''color:#0066cc;'' @ [34] @ u ''>['' @ str_nat num @ u ''] ''
        @ ref_title cite @ u ''</a><br>''
      else u ''<span>['' @ str_nat num @ u ''] '' @ ref_title cite @ u ''</span><br>'')"

definition format_references_html :: "(nat \<times> reference) list \<Rightarrow> ustring" where
  "format_references_html citations =
     (if citations = [] then []
      else
        u ''<div style='' @ [34]
        @ u ''margin-top:1rem;padding-top:0.5rem;border-top:1px solid #ddd;font-size:0.9em;''
        @ [34] @ u ''>'' @ u ''<strong>References:</strong><br>''
        @ concat (map (\<lambda>num. case map_of citations num of
                                  Some cite \<Rightarrow> reference_line num cite
                                | None \<Rightarrow> [])
                    (sort (map fst citations)))
        @ u ''</div>'')"

subsection \<open>Vocabulary for the numbering\<close>

text \<open>
  The identifiers of the markers of a text in the order of their occurrences, the
  distinct ones in the order of their first occurrence, and the position of an
  identifier in a list (0-based).
\<close>

fun marker_ids :: "piece list \<Rightarrow> ustring list" where
  "marker_ids [] = []"
| "marker_ids (Lit c # ps) = marker_ids ps"
| "marker_ids (Marker cid # ps) = cid # marker_ids ps"

definition cite_ids :: "ustring \<Rightarrow> ustring list" where
  "cite_ids text = marker_ids (scan text)"

definition first_seen :: "'a list \<Rightarrow> 'a list" where
  "first_seen xs = rev (remdups (rev xs))"

fun first_index :: "'a list \<Rightarrow> 'a \<Rightarrow> nat" where
  "first_index [] x = 0"
| "first_index (y # ys) x = (if y = x then 0 else Suc (first_index ys x))"

fun seen_after :: "'a list \<Rightarrow> 'a list \<Rightarrow> 'a list" where
  "seen_after ds [] = ds"
| "seen_after ds (x # xs) = seen_after (if x \<in> set ds then ds else ds @ [x]) xs"

text \<open>What \<open>citation_metadata\<close> says about an identifier, with the defaults of the source.\<close>

definition url_of :: "(ustring \<times> cite_meta) list \<Rightarrow> ustring \<Rightarrow> ustring" where
  "url_of citation_metadata cid =
     (case map_of citation_metadata cid of
        None \<Rightarrow> []
      | Some m \<Rightarrow> (case meta_url m of None \<Rightarrow> [] | Some v \<Rightarrow> v))"

definition title_of :: "(ustring \<times> cite_meta) list \<Rightarrow> ustring \<Rightarrow> nat \<Rightarrow> ustring" where
  "title_of citation_metadata cid num =
     (case map_of citation_metadata cid of
        None \<Rightarrow> u ''Source '' @ str_nat num
      | Some m \<Rightarrow> (case meta_title m of None \<Rightarrow> u ''Source '' @ str_nat num | Some v \<Rightarrow> v))"

definition registry_of :: "(ustring \<times> cite_meta) list \<Rightarrow> ustring list \<Rightarrow> (ustring \<times> citation) list" where
  "registry_of md ds =
     map (\<lambda>k. (k, \<lparr>cit_num = Suc (first_index ds k), cit_url = url_of md k,
                    cit_title = title_of md k (Suc (first_index ds k))\<rparr>)) ds"

definition render_piece :: "bool \<Rightarrow> (ustring \<times> cite_meta) list \<Rightarrow> ustring list \<Rightarrow> piece \<Rightarrow> ustring" where
  "render_piece use_html md ds p =
     (case p of Lit c \<Rightarrow> [c]
      | Marker cid \<Rightarrow> render_marker use_html (url_of md cid) (Suc (first_index ds cid)))"

section \<open>The client (\<open>copilot_client.py\<close>)\<close>

subsection \<open>Python string operations\<close>

text \<open>\<open>s.split(sep)\<close> for a one-character separator; the result is never empty.\<close>

fun split_acc :: "nat \<Rightarrow> ustring \<Rightarrow> ustring \<Rightarrow> ustring list" where
  "split_acc sep cur [] = [cur]"
| "split_acc sep cur (x # xs) =
     (if x = sep then cur # split_acc sep [] xs else split_acc sep (cur @ [x]) xs)"

definition split :: "nat \<Rightarrow> ustring \<Rightarrow> ustring list" where
  "split sep s = split_acc sep [] s"

text \<open>
  \<open>s.replace(old, new)\<close>: every occurrence of \<open>old\<close>, found from the left and not
  overlapping, is replaced. With an empty \<open>old\<close>, \<open>new\<close> goes before every character
  and at the end.
\<close>

function replace :: "ustring \<Rightarrow> ustring \<Rightarrow> ustring \<Rightarrow> ustring" where
  "replace old new [] = (if old = [] then new else [])"
| "replace old new (c # cs) =
     (if old = [] then new @ concat (map (\<lambda>x. x # new) (c # cs))
      else if prefix old (c # cs) then new @ replace old new (drop (length old) (c # cs))
      else c # replace old new cs)"
  by pat_completeness auto
termination
  by (relation "measure (\<lambda>(old, new, s). length s)") auto

text \<open>\<open>sep.join(xs)\<close>.\<close>

fun join :: "ustring \<Rightarrow> ustring list \<Rightarrow> ustring" where
  "join sep [] = []"
| "join sep [x] = x"
| "join sep (x # y # ys) = x @ sep @ join sep (y # ys)"

text \<open>
  \<open>s.strip()\<close> removes the white space at both ends; \<open>isspace\<close> is Python's test,
  the code points of bidirectional type WS, B or S and of category Zs.
\<close>

definition isspace :: "nat \<Rightarrow> bool" where
  "isspace c \<longleftrightarrow>
     (0x09 \<le> c \<and> c \<le> 0x0D) \<or> (0x1C \<le> c \<and> c \<le> 0x20) \<or> c = 0x85 \<or> c = 0xA0
     \<or> c = 0x1680 \<or> (0x2000 \<le> c \<and> c \<le> 0x200A) \<or> c = 0x2028 \<or> c = 0x2029
     \<or> c = 0x202F \<or> c = 0x205F \<or> c = 0x3000"

definition strip :: "ustring \<Rightarrow> ustring" where
  "strip s = rev (dropWhile isspace (rev (dropWhile isspace s)))"

text \<open>\<open>sub in s\<close> for two texts.\<close>

fun contains :: "ustring \<Rightarrow> ustring \<Rightarrow> bool" where
  "contains sub [] = (sub = [])"
| "contains sub (c # cs) = (prefix sub (c # cs) \<or> contains sub cs)"

text \<open>\<open>a or b or ... or ''\<close> over optional texts: the first one that is truthy.\<close>

fun first_truthy :: "ustring option list \<Rightarrow> ustring" where
  "first_truthy [] = []"
| "first_truthy (None # xs) = first_truthy xs"
| "first_truthy (Some s # xs) = (if s \<noteq> [] then s else first_truthy xs)"

text \<open>
  Two tables of the Python runtime's Unicode database are parameters of the model:
  the lower-casing of a text (\<open>str.lower\<close>) and the value of a decimal digit (the
  characters that the digit class of a pattern matches and \<open>int\<close> reads; \<open>None\<close> for every other character).
  \<open>ascii_db\<close> is their restriction to ASCII.
\<close>

record unicode_db =
  ud_lower :: "ustring \<Rightarrow> ustring"
  ud_decimal :: "nat \<Rightarrow> nat option"

definition ascii_db :: unicode_db where
  "ascii_db =
     \<lparr>ud_lower = map (\<lambda>c. if 65 \<le> c \<and> c \<le> 90 then c + 32 else c),
      ud_decimal = (\<lambda>c. if 48 \<le> c \<and> c \<le> 57 then Some (c - 48) else None)\<rparr>"


subsection \<open>Activities of the transport\<close>

text \<open>
  An activity is read through the attributes \<open>type\<close>, \<open>text\<close>, \<open>channel_data\<close>
  (or \<open>channelData\<close>), \<open>value\<close>, \<open>entities\<close>, \<open>suggested_actions\<close> and
  \<open>conversation\<close>. The bags are typed by what the code asks of them.
  \<^item> A value that must be a \<open>dict\<close> to be looked into is a \<open>field\<close>: \<open>Dict\<close>,
    \<open>Not_dict\<close> (anything else that the code does not replace by \<open>{}\<close>, a null under
    \<open>get(key, {})\<close> included) or \<open>Missing\<close> (what the code replaces by \<open>{}\<close>: an
    absent key under \<open>get(key, {})\<close>, a falsy attribute under \<open>or {}\<close>).
  \<^item> A key that the code reads with \<open>get(key, default)\<close> and then uses is a \<open>leaf\<close>:
    \<open>Absent\<close>, \<open>Null\<close> or \<open>Val\<close>. Only an absent key gives the default; a null gives
    \<open>None\<close>, on which \<open>':' in task_id\<close> and \<open>enumerate(results)\<close> raise a
    \<open>TypeError\<close>.
  \<^item> A key that the code only tests for truth or compares, or reads in an \<open>or\<close> chain,
    is an optional text: \<open>None\<close> when the key is absent or null, which the code does
    not tell apart there.
  Values of other types (a number where a text is expected) are outside the model.
\<close>

datatype activity_type = Message | Typing | Event | End_of_conversation | Other_activity

datatype 'a field = Missing | Not_dict | Dict 'a

datatype 'a leaf = Absent | Null | Val 'a

record channel_dict =
  streamType :: "ustring option"
  chunkType :: "ustring option"

text \<open>One element of \<open>search_results\<close>: a \<open>dict\<close> with these keys, or something else.\<close>

record result_dict =
  res_Url :: "ustring option"
  res_url :: "ustring option"
  res_Name :: "ustring option"
  res_name :: "ustring option"
  res_SourceId :: "ustring option"

datatype result_item = Result result_dict | Not_a_result

record search_result_dict =
  search_results_key :: "result_item list leaf"

record observation_dict =
  search_result_key :: "search_result_dict field"

record value_dict =
  thought :: "ustring option"
  taskDialogId :: "ustring leaf"
  state :: "ustring leaf"
  observation :: "observation_dict field"

text \<open>
  An entity is an object with a \<open>__dict__\<close>, a \<open>dict\<close>, or something else; in the
  first two cases the code reads these keys.
\<close>

record entity_dict =
  ent_type :: "ustring leaf"
  ent_at_id :: "ustring option"
  ent_id :: "ustring option"
  ent_url :: "ustring option"
  ent_Url :: "ustring option"
  ent_uri :: "ustring option"
  ent_sameAs :: "ustring option"
  ent_name :: "ustring option"
  ent_title :: "ustring option"
  ent_Name :: "ustring option"

datatype entity = Ent_object entity_dict | Ent_dict entity_dict | Ent_other

record conversation_account =
  conv_id :: "ustring option"

record activity =
  a_type :: activity_type
  a_text :: "ustring option"
  a_channel_data :: "channel_dict field"
  a_channelData :: "channel_dict field"
  a_value :: "value_dict field"
  a_entities :: "entity list"
  a_suggested_actions :: "ustring list option"
  a_conversation :: "conversation_account option"

text \<open>
  A stream of the transport delivers its activities and then either is exhausted or
  raises. The SDK client is the pair of functions \<open>sdk_start_conversation\<close> and
  \<open>sdk_ask_question\<close>; with \<open>conversation_id\<close> they make up the wrapper object.
\<close>

datatype stream_end = Exhausted | Raises

datatype error = TransportError | TypeError

record client =
  sdk_start_conversation :: "activity list \<times> stream_end"
  sdk_ask_question :: "ustring \<Rightarrow> ustring \<Rightarrow> activity list \<times> stream_end"
  conversation_id :: "ustring option"

subsection \<open>\<open>start_conversation\<close>\<close>

fun start_loop :: "activity list \<Rightarrow> ustring \<Rightarrow> client \<Rightarrow> ustring \<times> client" where
  "start_loop [] welcome_text self = (welcome_text, self)"
| "start_loop (activity # rest) welcome_text self =
     start_loop rest
       (case a_text activity of
          None \<Rightarrow> welcome_text
        | Some t \<Rightarrow> if t \<noteq> [] then welcome_text @ t @ [newline] else welcome_text)
       (case a_conversation activity of
          None \<Rightarrow> self
        | Some c \<Rightarrow> self\<lparr>conversation_id := conv_id c\<rparr>)"

text \<open>
  The result is the client after the call and either the error that the stream raised
  or the returned value (\<open>None\<close> or the welcome text).
\<close>

definition start_conversation :: "client \<Rightarrow> client \<times> (error + ustring option)" where
  "start_conversation self =
     (let (activities, ending) = sdk_start_conversation self;
          (welcome_text, self') = start_loop activities [] self
      in (self',
          case ending of
            Raises \<Rightarrow> Inl TransportError
          | Exhausted \<Rightarrow> Inr (if welcome_text \<noteq> [] then Some (strip welcome_text) else None)))"

subsection \<open>\<open>send_message\<close>\<close>

text \<open>The payloads of the yielded tuples, and the tuples by their tag.\<close>

record thought_info =
  th_text :: ustring
  th_task :: ustring
  th_state :: "ustring option"

record search_info =
  sr_index :: nat
  sr_url :: ustring
  sr_title :: ustring
  sr_source_id :: ustring

datatype event =
    Status ustring
  | Thought thought_info
  | Search_result search_info
  | Content ustring
  | Final_content ustring
  | Citations "(ustring \<times> cite_meta) list"
  | Suggestion ustring

text \<open>The task label of a thought, lines 170 to 175.\<close>

definition task_name_of :: "ustring \<Rightarrow> ustring" where
  "task_name_of task_id =
     (let task_name =
            (if of_char CHR '':'' \<in> set task_id then last (split (of_char CHR '':'') task_id)
             else if of_char CHR ''.'' \<in> set task_id then last (split (of_char CHR ''.'') task_id)
             else task_id)
      in replace (u ''-InvokeServer'') [] (replace (u ''P:'') [] task_name))"

text \<open>\<open>d.get(key, {})\<close> followed by \<open>isinstance(..., dict)\<close>.\<close>

fun as_dict :: "'a field \<Rightarrow> 'a \<Rightarrow> 'a option" where
  "as_dict Missing dflt = Some dflt"
| "as_dict Not_dict dflt = None"
| "as_dict (Dict d) dflt = Some d"

text \<open>\<open>d.get(key, default)\<close> on a leaf; the result \<open>None\<close> is Python's \<open>None\<close>.\<close>

fun get_leaf :: "'a leaf \<Rightarrow> 'a \<Rightarrow> 'a option" where
  "get_leaf Absent dflt = Some dflt"
| "get_leaf Null dflt = None"
| "get_leaf (Val v) dflt = Some v"

definition empty_value :: value_dict where
  "empty_value = \<lparr>thought = None, taskDialogId = Absent, state = Absent, observation = Missing\<rparr>"

text \<open>
  Lines 163 to 180: what the thought part yields, or the \<open>TypeError\<close> that
  \<open>':' in task_id\<close> raises on \<open>None\<close>, before anything is yielded. A null \<open>state\<close>
  is yielded as \<open>None\<close>.
\<close>

definition thought_events :: "value_dict \<Rightarrow> error + event list" where
  "thought_events value =
     (case thought value of
        None \<Rightarrow> Inr []
      | Some th \<Rightarrow>
          if th \<noteq> [] then
            (case get_leaf (taskDialogId value) [] of
               None \<Rightarrow> Inl TypeError
             | Some task_id \<Rightarrow>
                 Inr [Thought \<lparr>th_text = th, th_task = task_name_of task_id,
                                th_state = get_leaf (state value) []\<rparr>])
          else Inr [])"

fun result_events :: "nat \<Rightarrow> result_item list \<Rightarrow> event list" where
  "result_events idx [] = []"
| "result_events idx (Not_a_result # results) = result_events (Suc idx) results"
| "result_events idx (Result res # results) =
     Search_result \<lparr>sr_index = idx,
                    sr_url = first_truthy [res_Url res, res_url res],
                    sr_title = first_truthy [res_Name res, res_name res],
                    sr_source_id = first_truthy [res_SourceId res]\<rparr>
     # result_events (Suc idx) results"

text \<open>
  Lines 183 to 196: what the search part yields, or the \<open>TypeError\<close> that
  \<open>enumerate(results)\<close> raises on \<open>None\<close>.
\<close>

definition search_events :: "value_dict \<Rightarrow> error + event list" where
  "search_events value =
     (case as_dict (observation value) \<lparr>search_result_key = Missing\<rparr> of
        None \<Rightarrow> Inr []
      | Some obs \<Rightarrow>
          (case as_dict (search_result_key obs) \<lparr>search_results_key = Absent\<rparr> of
             None \<Rightarrow> Inr []
           | Some sr \<Rightarrow>
               (case get_leaf (search_results_key sr) [] of
                  None \<Rightarrow> Inl TypeError
                | Some results \<Rightarrow> Inr (result_events 0 results))))"

text \<open>
  Lines 159 to 196 for an event activity with a \<open>dict\<close> as value: the tuples yielded
  and the error raised after them, if any. A raise in the thought part comes before any
  tuple; a raise in the search part comes after the thought.
\<close>

definition value_events :: "value_dict \<Rightarrow> event list \<times> error option" where
  "value_events value =
     (case thought_events value of
        Inl e \<Rightarrow> ([], Some e)
      | Inr thoughts \<Rightarrow>
          (case search_events value of
             Inl e \<Rightarrow> (thoughts, Some e)
           | Inr found \<Rightarrow> (thoughts @ found, None)))"

text \<open>
  \<open>getattr(reply, 'channel_data', None) or getattr(reply, 'channelData', {}) or {}\<close>:
  \<open>None\<close> stands for a truthy value that is not a \<open>dict\<close>.
\<close>

definition channel_data_of :: "activity \<Rightarrow> channel_dict option" where
  "channel_data_of reply =
     (case a_channel_data reply of
        Dict d \<Rightarrow> Some d
      | Not_dict \<Rightarrow> None
      | Missing \<Rightarrow> as_dict (a_channelData reply) \<lparr>streamType = None, chunkType = None\<rparr>)"

text \<open>The entities of a message, lines 213 to 232: \<open>citation_map\<close> after the loop.\<close>

definition is_claim :: "unicode_db \<Rightarrow> ustring \<Rightarrow> bool" where
  "is_claim ud ent_type_str \<longleftrightarrow>
     contains (u ''Claim'') ent_type_str \<or> contains (u ''citation'') (ud_lower ud ent_type_str)"

definition add_entity ::
  "unicode_db \<Rightarrow> entity_dict \<Rightarrow> (ustring \<times> cite_meta) list \<Rightarrow> (ustring \<times> cite_meta) list" where
  "add_entity ud ent_dict citation_map =
     (if is_claim ud (case get_leaf (ent_type ent_dict) [] of
                        None \<Rightarrow> u ''None''
                      | Some type_str \<Rightarrow> type_str) then
        (let cite_id = first_truthy [ent_at_id ent_dict, ent_id ent_dict]
         in if cite_id \<noteq> [] then
              dict_set cite_id
                \<lparr>meta_url = Some (first_truthy [ent_url ent_dict, ent_Url ent_dict,
                                                 ent_uri ent_dict, ent_sameAs ent_dict]),
                 meta_title = Some (first_truthy [ent_name ent_dict, ent_title ent_dict,
                                                   ent_Name ent_dict])\<rparr>
                citation_map
            else citation_map)
      else citation_map)"

fun entities_loop ::
  "unicode_db \<Rightarrow> entity list \<Rightarrow> (ustring \<times> cite_meta) list \<Rightarrow> (ustring \<times> cite_meta) list" where
  "entities_loop ud [] citation_map = citation_map"
| "entities_loop ud (Ent_object d # ents) citation_map =
     entities_loop ud ents (add_entity ud d citation_map)"
| "entities_loop ud (Ent_dict d # ents) citation_map =
     entities_loop ud ents (add_entity ud d citation_map)"
| "entities_loop ud (Ent_other # ents) citation_map = entities_loop ud ents citation_map"

definition message_events :: "unicode_db \<Rightarrow> activity \<Rightarrow> event list" where
  "message_events ud reply =
     (let citation_map = entities_loop ud (a_entities reply) [];
          stream_type = (case channel_data_of reply of None \<Rightarrow> None | Some d \<Rightarrow> streamType d)
      in (if citation_map \<noteq> [] then [Citations citation_map] else [])
         @ (case a_text reply of
              None \<Rightarrow> []
            | Some t \<Rightarrow>
                if t \<noteq> [] \<and> (stream_type = Some (u ''final'') \<or> stream_type = None)
                then [Final_content t] else [])
         @ (case a_suggested_actions reply of
              None \<Rightarrow> []
            | Some actions \<Rightarrow> if actions \<noteq> [] then [Suggestion (join (u '', '') actions)] else []))"

definition typing_events :: "activity \<Rightarrow> event list" where
  "typing_events reply =
     (case channel_data_of reply of
        None \<Rightarrow> []
      | Some d \<Rightarrow>
          if streamType d = Some (u ''informative'') \<and> truthy (a_text reply)
          then [Status (get_default (a_text reply) [])]
          else if chunkType d = Some (u ''delta'') \<and> truthy (a_text reply)
          then [Content (get_default (a_text reply) [])]
          else [])"

text \<open>
  One round of the loop over the replies: the tuples it yields and how it ends, by going
  on to the next reply, by \<open>break\<close>, or by raising. (The dump of every reply to a debug
  file does not feed any tuple and is left out.)
\<close>

datatype flow = Next | Break | Raise error

definition handle_reply :: "unicode_db \<Rightarrow> activity \<Rightarrow> event list \<times> flow" where
  "handle_reply ud reply =
     (let (from_event, raised) =
            (if a_type reply = Event then
               (case as_dict (a_value reply) empty_value of
                  None \<Rightarrow> ([], None)
                | Some value \<Rightarrow> value_events value)
             else ([], None))
      in case raised of
           Some e \<Rightarrow> (from_event, Raise e)
         | None \<Rightarrow>
             if a_type reply = Typing then (from_event @ typing_events reply, Next)
             else if a_type reply = Message then (from_event @ message_events ud reply, Next)
             else if a_type reply = End_of_conversation
             then (from_event @ [Status (u ''Conversation ended.'')], Break)
             else (from_event, Next))"

text \<open>
  The generator, run to its end: the client after the run, the tuples yielded, and the
  error it raised, if any. The stream is read one reply at a time; after a \<open>break\<close> or
  a raise nothing more is read.
\<close>

fun send_loop ::
  "unicode_db \<Rightarrow> client \<Rightarrow> activity list \<Rightarrow> stream_end \<Rightarrow> client \<times> event list \<times> error option" where
  "send_loop ud self [] ending =
     (self, [], case ending of Raises \<Rightarrow> Some TransportError | Exhausted \<Rightarrow> None)"
| "send_loop ud self (reply # rest) ending =
     (let (yielded, how) = handle_reply ud reply
      in case how of
           Raise e \<Rightarrow> (self, yielded, Some e)
         | Break \<Rightarrow> (self, yielded, None)
         | Next \<Rightarrow>
             (let (self', more, raised) = send_loop ud self rest ending
              in (self', yielded @ more, raised)))"

definition send_message :: "unicode_db \<Rightarrow> client \<Rightarrow> ustring \<Rightarrow> client \<times> event list \<times> error option" where
  "send_message ud self message =
     (case conversation_id self of
        None \<Rightarrow> (self, [Content (u ''Error: No active conversation.'')], None)
      | Some cid \<Rightarrow>
          if cid = [] then (self, [Content (u ''Error: No active conversation.'')], None)
          else (let (replies, ending) = sdk_ask_question self message cid
                in send_loop ud self replies ending))"


section \<open>The consumer (\<open>process_response\<close> in \<open>app.py\<close>)\<close>

subsection \<open>The pattern for search citations\<close>

text \<open>
  \<open>re.search\<close> with the pattern \<open>search\<close>, one or more digits, end of text. The end
  is matched at the end of the text or before a newline that ends it. The digits are
  taken greedily, giving one back at a time when the end does not follow.
  \<open>digits_to_end\<close> returns the values of the digits of the group, \<open>search_index\<close> is
  \<open>int\<close> of the group of the leftmost match.
\<close>

definition at_end :: "ustring \<Rightarrow> bool" where
  "at_end s \<longleftrightarrow> s = [] \<or> s = [newline]"

fun digits_to_end :: "unicode_db \<Rightarrow> ustring \<Rightarrow> nat list option" where
  "digits_to_end ud [] = None"
| "digits_to_end ud (c # cs) =
     (case ud_decimal ud c of
        None \<Rightarrow> None
      | Some d \<Rightarrow>
          (case digits_to_end ud cs of
             Some ds \<Rightarrow> Some (d # ds)
           | None \<Rightarrow> if at_end cs then Some [d] else None))"

definition match_search :: "unicode_db \<Rightarrow> ustring \<Rightarrow> nat list option" where
  "match_search ud s =
     (if prefix (u ''search'') s then digits_to_end ud (drop (length (u ''search'')) s)
      else None)"

fun re_search :: "unicode_db \<Rightarrow> ustring \<Rightarrow> nat list option" where
  "re_search ud [] = match_search ud []"
| "re_search ud (c # cs) =
     (case match_search ud (c # cs) of
        Some ds \<Rightarrow> Some ds
      | None \<Rightarrow> re_search ud cs)"

definition int_of_digits :: "nat list \<Rightarrow> nat" where
  "int_of_digits ds = foldl (\<lambda>n d. 10 * n + d) 0 ds"

definition search_index :: "unicode_db \<Rightarrow> ustring \<Rightarrow> nat option" where
  "search_index ud cite_id = map_option int_of_digits (re_search ud cite_id)"

subsection \<open>The fold over the tuples of one turn\<close>

text \<open>
  The local variables of \<open>process_response\<close>. (The three placeholders of the page are
  written to and never read; they are left out.)
\<close>

record turn =
  content_parts :: "ustring list"
  suggestions :: "ustring option"
  citation_metadata :: "(ustring \<times> cite_meta) list"
  search_results :: "search_info list"
  thoughts :: "thought_info list"
  got_streaming :: bool

definition init_turn :: turn where
  "init_turn =
     \<lparr>content_parts = [], suggestions = None, citation_metadata = [], search_results = [],
      thoughts = [], got_streaming = False\<rparr>"

text \<open>
  The body of the loop over \<open>msg_content.items()\<close>, lines 147 to 159: what one record of
  a \<open>'citations'\<close> tuple is after the loop. \<open>find\<close> is the inner loop with its \<open>break\<close>.
\<close>

definition enrich :: "unicode_db \<Rightarrow> search_info list \<Rightarrow> ustring \<Rightarrow> cite_meta \<Rightarrow> cite_meta" where
  "enrich ud srs cite_id cite_info =
     (case search_index ud cite_id of
        None \<Rightarrow> cite_info
      | Some idx \<Rightarrow>
          if \<not> truthy (meta_url cite_info) then
            (case find (\<lambda>sr. sr_index sr = idx) srs of
               None \<Rightarrow> cite_info
             | Some sr \<Rightarrow>
                 (let cite_info' = cite_info\<lparr>meta_url := Some (sr_url sr)\<rparr>
                  in if \<not> truthy (meta_title cite_info')
                     then cite_info'\<lparr>meta_title := Some (sr_title sr)\<rparr>
                     else cite_info'))
          else cite_info)"

fun handle_event :: "unicode_db \<Rightarrow> turn \<Rightarrow> event \<Rightarrow> turn" where
  "handle_event ud t (Status msg_content) = t"
| "handle_event ud t (Thought msg_content) = t\<lparr>thoughts := thoughts t @ [msg_content]\<rparr>"
| "handle_event ud t (Search_result msg_content) =
     t\<lparr>search_results := search_results t @ [msg_content]\<rparr>"
| "handle_event ud t (Content msg_content) =
     t\<lparr>got_streaming := True, content_parts := content_parts t @ [msg_content]\<rparr>"
| "handle_event ud t (Final_content msg_content) =
     (if \<not> got_streaming t then t\<lparr>content_parts := [msg_content]\<rparr> else t)"
| "handle_event ud t (Citations msg_content) =
     t\<lparr>citation_metadata :=
         dict_update (citation_metadata t)
           (map (\<lambda>(cite_id, cite_info). (cite_id, enrich ud (search_results t) cite_id cite_info))
              msg_content)\<rparr>"
| "handle_event ud t (Suggestion msg_content) = t\<lparr>suggestions := Some msg_content\<rparr>"

definition fold_events :: "unicode_db \<Rightarrow> event list \<Rightarrow> turn" where
  "fold_events ud evs = foldl (handle_event ud) init_turn evs"

text \<open>The accumulated text is the join of the parts.\<close>

definition accumulated :: "turn \<Rightarrow> ustring" where
  "accumulated t = concat (content_parts t)"

definition finish_turn :: "turn \<Rightarrow> ustring \<times> (nat \<times> reference) list \<times> ustring option" where
  "finish_turn t =
     (let raw_content = accumulated t;
          (cleaned_text, citations) = clean_citations raw_content True (citation_metadata t)
      in (if citations \<noteq> [] then cleaned_text @ format_references_html citations
          else cleaned_text,
          citations, suggestions t))"

definition process_response ::
  "unicode_db \<Rightarrow> client \<Rightarrow> ustring
    \<Rightarrow> error + ustring \<times> (nat \<times> reference) list \<times> ustring option" where
  "process_response ud self prompt =
     (case send_message ud self prompt of
        (self', evs, Some e) \<Rightarrow> Inl e
      | (self', evs, None) \<Rightarrow> Inr (finish_turn (fold_events ud evs)))"

section \<open>Readings of the specification, for comparison\<close>

text \<open>
  The task label as the specification words it: the part after the last colon, else
  after the last dot, else the identifier; then the prefix \<open>P:\<close> taken off the front
  and the suffix \<open>-InvokeServer\<close> taken off the end.
\<close>

definition after_last :: "nat \<Rightarrow> ustring \<Rightarrow> ustring" where
  "after_last sep s = rev (takeWhile (\<lambda>c. c \<noteq> sep) (rev s))"

definition task_segment :: "ustring \<Rightarrow> ustring" where
  "task_segment task_id =
     (if of_char CHR '':'' \<in> set task_id then after_last (of_char CHR '':'') task_id
      else if of_char CHR ''.'' \<in> set task_id then after_last (of_char CHR ''.'') task_id
      else task_id)"

definition strip_prefix :: "ustring \<Rightarrow> ustring \<Rightarrow> ustring" where
  "strip_prefix p s = (if prefix p s then drop (length p) s else s)"

definition strip_suffix :: "ustring \<Rightarrow> ustring \<Rightarrow> ustring" where
  "strip_suffix q s = (if suffix q s then take (length s - length q) s else s)"

definition task_label_spec :: "ustring \<Rightarrow> ustring" where
  "task_label_spec task_id =
     strip_suffix (u ''-InvokeServer'') (strip_prefix (u ''P:'') (task_segment task_id))"

text \<open>The \<open>'search_result'\<close> payloads among the tuples of a turn, in order.\<close>

fun observed_results :: "event list \<Rightarrow> search_info list" where
  "observed_results [] = []"
| "observed_results (Search_result sr # evs) = sr # observed_results evs"
| "observed_results (e # evs) = observed_results evs"

text \<open>
  The conversation references of a stream in order, and the non-empty texts.
\<close>

definition conversations :: "activity list \<Rightarrow> conversation_account list" where
  "conversations acts = List.map_filter a_conversation acts"

definition texts :: "activity list \<Rightarrow> ustring list" where
  "texts acts = filter (\<lambda>t. t \<noteq> []) (List.map_filter a_text acts)"

section \<open>Example inputs\<close>

text \<open>The text of the scenario of the specification: one identifier, cited twice.\<close>

definition example_text :: ustring where
  "example_text = u ''Answer'' @ open_marker @ u ''turn1search0'' @ [close_marker] @ u '' more''
                  @ open_marker @ u ''turn1search0'' @ [close_marker] @ u ''.''"


text \<open>
  A transport whose greeting carries two conversation references, and whose reply to a
  question ends the conversation in the middle of the stream and would raise at its end.
\<close>

definition plain_activity :: activity where
  "plain_activity =
     \<lparr>a_type = Other_activity, a_text = None, a_channel_data = Missing, a_channelData = Missing,
      a_value = Missing, a_entities = [], a_suggested_actions = None, a_conversation = None\<rparr>"

definition delta_activity :: "ustring \<Rightarrow> activity" where
  "delta_activity t =
     plain_activity\<lparr>a_type := Typing, a_text := Some t,
       a_channel_data := Dict \<lparr>streamType = Some (u ''streaming''), chunkType = Some (u ''delta'')\<rparr>\<rparr>"

definition null_task_activity :: activity where
  "null_task_activity =
     plain_activity\<lparr>a_type := Event,
       a_value := Dict \<lparr>thought = Some (u ''Looking up''), taskDialogId = Null,
                         state = Absent, observation = Missing\<rparr>\<rparr>"

definition end_activity :: activity where
  "end_activity = plain_activity\<lparr>a_type := End_of_conversation\<rparr>"

definition greeting :: "ustring \<Rightarrow> ustring \<Rightarrow> activity" where
  "greeting t cid =
     plain_activity\<lparr>a_type := Message, a_text := Some t,
       a_conversation := Some \<lparr>conv_id = Some cid\<rparr>\<rparr>"

definition fresh_client :: client where
  "fresh_client =
     \<lparr>sdk_start_conversation =
        ([greeting (u ''Hi'') (u ''A''), greeting (u ''there'') (u ''B'')], Exhausted),
      sdk_ask_question =
        (\<lambda>message cid.
           ([delta_activity (u ''Bye'')] @ end_activity # [delta_activity (u ''lost'')], Raises)),
      conversation_id = None\<rparr>"

definition example_client :: client where
  "example_client = fresh_client\<lparr>conversation_id := Some (u ''A'')\<rparr>"

text \<open>A search result with index 3, and the value of a thought event.\<close>

definition example_hit :: search_info where
  "example_hit = \<lparr>sr_index = 3, sr_url = u ''https://x'', sr_title = u ''X'', sr_source_id = []\<rparr>"

definition example_value :: "ustring \<Rightarrow> value_dict" where
  "example_value task_id =
     \<lparr>thought = Some (u ''Looking up''), taskDialogId = Val task_id,
      state = Val (u ''started''), observation = Missing\<rparr>"

section \<open>Properties\<close>

subsection \<open>Texts\<close>

lemma u_Nil_iff: "u s = [] \<longleftrightarrow> s = []"
  by (simp add: u_def)

lemma u_eq_iff: "u s = u t \<longleftrightarrow> s = t"
  by (simp add: u_def inj_map_eq_map [OF inj_of_char])

subsection \<open>Dictionaries and positions\<close>

lemma dict_set_fresh: "k \<notin> fst ` set d \<Longrightarrow> dict_set k v d = d @ [(k, v)]"
  by (induction d) (auto simp: dict_set_def)

lemma dict_update_distinct:
  "distinct (map fst (d @ e)) \<Longrightarrow> dict_update d e = d @ e"
proof (induction e arbitrary: d)
  case Nil
  then show ?case by (simp add: dict_update_def)
next
  case (Cons kv e)
  obtain k v where kv: "kv = (k, v)" by (cases kv)
  from Cons.prems kv have fresh: "k \<notin> fst ` set d" by auto
  from Cons.prems kv have "distinct (map fst ((d @ [(k, v)]) @ e))" by simp
  from Cons.IH [OF this] have "dict_update (d @ [(k, v)]) e = d @ (k, v) # e" by simp
  then show ?case using fresh kv by (simp add: dict_update_def dict_set_fresh)
qed

lemma dict_of_items_distinct: "distinct (map fst kvs) \<Longrightarrow> dict_of_items kvs = kvs"
  using dict_update_distinct [of "[]" kvs] by (simp add: dict_of_items_def)

lemma first_index_append: "x \<in> set ds \<Longrightarrow> first_index (ds @ es) x = first_index ds x"
  by (induction ds) auto

lemma first_index_fresh: "x \<notin> set ds \<Longrightarrow> first_index (ds @ [x]) x = length ds"
  by (induction ds) auto

lemma first_index_distinct: "distinct ds \<Longrightarrow> map (first_index ds) ds = [0..<length ds]"
proof (induction ds)
  case Nil
  then show ?case by simp
next
  case (Cons d ds)
  then have "map (first_index (d # ds)) ds = map (Suc \<circ> first_index ds) ds" by auto
  also have "\<dots> = map Suc [0..<length ds]" using Cons by (simp flip: map_map)
  finally have tl: "map (first_index (d # ds)) ds = [Suc 0..<Suc (length ds)]"
    by (simp add: map_Suc_upt)
  have hd: "first_index (d # ds) d = 0" by simp
  have "[0..<length (d # ds)] = 0 # [Suc 0..<Suc (length ds)]"
    by (simp add: upt_conv_Cons del: upt_Suc)
  then show ?case by (simp only: list.map tl hd)
qed

lemma map_of_registry:
  "map_of (registry_of md ds) cid =
     (if cid \<in> set ds then Some \<lparr>cit_num = Suc (first_index ds cid), cit_url = url_of md cid,
                    cit_title = title_of md cid (Suc (first_index ds cid))\<rparr> else None)"
  unfolding registry_of_def by (induction ds) (auto simp: map_of_map_restrict)

lemma registry_of_snoc:
  "cid \<notin> set ds \<Longrightarrow>
   registry_of md (ds @ [cid]) =
     registry_of md ds @ [(cid, \<lparr>cit_num = Suc (length ds), cit_url = url_of md cid,
                                 cit_title = title_of md cid (Suc (length ds))\<rparr>)]"
  by (simp add: registry_of_def first_index_append first_index_fresh)

lemma meta_defaults:
  "get_default (meta_url (get_default (map_of md cid) \<lparr>meta_url = None, meta_title = None\<rparr>)) [] = url_of md cid"
  "get_default (meta_title (get_default (map_of md cid) \<lparr>meta_url = None, meta_title = None\<rparr>)) d
     = (case map_of md cid of None \<Rightarrow> d | Some m \<Rightarrow> (case meta_title m of None \<Rightarrow> d | Some v \<Rightarrow> v))"
  by (auto simp: url_of_def split: option.splits)

lemma replace_citation_step:
  "replace_citation use_html md cid (registry_of md ds, length ds) =
     (let ds' = (if cid \<in> set ds then ds else ds @ [cid])
      in (render_marker use_html (url_of md cid) (Suc (first_index ds' cid)),
          registry_of md ds', length ds'))"
proof (cases "cid \<in> set ds")
  case True
  then show ?thesis
    by (simp add: replace_citation_def map_of_registry)
next
  case False
  then have fresh: "cid \<notin> fst ` set (registry_of md ds)"
    by (auto simp: registry_of_def)
  from False show ?thesis
    by (simp add: replace_citation_def map_of_registry Let_def meta_defaults title_of_def
        dict_set_fresh [OF fresh] registry_of_snoc first_index_fresh)
qed

lemma seen_after_extends: "\<exists>zs. seen_after ds xs = ds @ zs"
proof (induction xs arbitrary: ds)
  case Nil
  then show ?case by simp
next
  case (Cons x xs)
  from Cons.IH [of "if x \<in> set ds then ds else ds @ [x]"] show ?case
    by (auto split: if_splits)
qed

lemma first_index_seen_after:
  "x \<in> set ds \<Longrightarrow> first_index (seen_after ds xs) x = first_index ds x"
  using seen_after_extends [of ds xs] by (auto simp: first_index_append)

lemma sub_pieces_replace:
  "sub_pieces (replace_citation use_html md) ps (registry_of md ds, length ds) =
     (concat (map (render_piece use_html md (seen_after ds (marker_ids ps))) ps),
      registry_of md (seen_after ds (marker_ids ps)),
      length (seen_after ds (marker_ids ps)))"
proof (induction ps arbitrary: ds)
  case Nil
  then show ?case by simp
next
  case (Cons p ps)
  show ?case
  proof (cases p)
    case (Lit c)
    then show ?thesis by (simp add: Cons.IH render_piece_def)
  next
    case (Marker cid)
    define ds1 where "ds1 = (if cid \<in> set ds then ds else ds @ [cid])"
    have mem: "cid \<in> set ds1" by (simp add: ds1_def)
    have step: "replace_citation use_html md cid (registry_of md ds, length ds) =
        (render_marker use_html (url_of md cid) (Suc (first_index ds1 cid)),
         registry_of md ds1, length ds1)"
      by (simp add: replace_citation_step ds1_def Let_def)
    have sa: "seen_after ds (marker_ids (p # ps)) = seen_after ds1 (marker_ids ps)"
      by (simp add: Marker ds1_def)
    show ?thesis
      unfolding sa
      by (simp add: Marker step Cons.IH [of ds1] render_piece_def first_index_seen_after [OF mem])
  qed
qed

lemma first_seen_dup:
  assumes "x \<in> set ds"
  shows "first_seen (ds @ x # xs) = first_seen (ds @ xs)"
proof -
  have "remdups (ys @ x # rev ds) = remdups (ys @ rev ds)" for ys
    using assms by (induction ys) auto
  then show ?thesis by (simp add: first_seen_def)
qed

lemma numbers_dense:
  assumes "distinct ds"
  shows "map (\<lambda>k. Suc (first_index ds k)) ds = [1..<Suc (length ds)]"
proof -
  have "map (\<lambda>k. Suc (first_index ds k)) ds = map Suc (map (first_index ds) ds)" by simp
  also have "\<dots> = map Suc [0..<length ds]" by (simp only: first_index_distinct [OF assms])
  also have "\<dots> = [Suc 0..<Suc (length ds)]" by (rule map_Suc_upt)
  finally show ?thesis by simp
qed

lemma seen_after_first_seen:
  "distinct ds \<Longrightarrow> seen_after ds xs = first_seen (ds @ xs)"
proof (induction xs arbitrary: ds)
  case Nil
  then show ?case by (simp add: first_seen_def distinct_remdups_id)
next
  case (Cons x xs)
  show ?case
  proof (cases "x \<in> set ds")
    case True
    then show ?thesis using Cons by (simp add: first_seen_dup)
  next
    case False
    with Cons.prems have "distinct (ds @ [x])" by simp
    from Cons.IH [OF this] False show ?thesis by simp
  qed
qed

lemma distinct_first_seen: "distinct (first_seen xs)"
  by (simp add: first_seen_def)

lemma set_first_seen: "set (first_seen xs) = set xs"
  by (simp add: first_seen_def)

lemma clean_citations_char:
  "clean_citations text use_html md =
     (let ds = first_seen (cite_ids text)
      in (concat (map (render_piece use_html md ds) (scan text)),
          map (\<lambda>k. (Suc (first_index ds k),
                     \<lparr>ref_id = k, ref_url = url_of md k,
                      ref_title = title_of md k (Suc (first_index ds k))\<rparr>)) ds))"
proof (cases "text = []")
  case True
  then show ?thesis by (simp add: clean_citations_def cite_ids_def first_seen_def)
next
  case False
  define ds where "ds = first_seen (cite_ids text)"
  have sa: "seen_after [] (marker_ids (scan text)) = ds"
    by (simp add: seen_after_first_seen ds_def cite_ids_def)
  have run: "re_sub (replace_citation use_html md) text ([], 0) =
      (concat (map (render_piece use_html md ds) (scan text)), registry_of md ds, length ds)"
    using sub_pieces_replace [of use_html md "scan text" "[]"]
    by (simp add: re_sub_def sa registry_of_def)
  have "distinct (map (\<lambda>k. Suc (first_index ds k)) ds)"
    by (simp only: numbers_dense [OF distinct_first_seen] ds_def distinct_upt)
  then have dist: "distinct (map fst (map (\<lambda>k. (Suc (first_index ds k),
                     \<lparr>ref_id = k, ref_url = url_of md k,
                      ref_title = title_of md k (Suc (first_index ds k))\<rparr>)) ds))"
    by (simp add: comp_def)
  have items: "map (\<lambda>(k, v). (cit_num v, \<lparr>ref_id = k, ref_url = cit_url v, ref_title = cit_title v\<rparr>))
                 (registry_of md ds) =
               map (\<lambda>k. (Suc (first_index ds k),
                     \<lparr>ref_id = k, ref_url = url_of md k,
                      ref_title = title_of md k (Suc (first_index ds k))\<rparr>)) ds"
    by (simp add: registry_of_def)
  show ?thesis
    using False
    by (simp add: clean_citations_def run items dict_of_items_distinct [OF dist] Let_def flip: ds_def)
qed




lemma scan_example:
  "scan example_text =
     map Lit (u ''Answer'') @ [Marker (u ''turn1search0'')] @ map Lit (u '' more'')
     @ [Marker (u ''turn1search0'')] @ map Lit (u ''.'')"
  by (simp add: example_text_def u_def match_marker_def open_marker_def close_marker_def newline_def)



text \<open>
  Claim C9. Every identifier of a marker has an entry, and for every entry the title is
  the \<open>'title'\<close> of the metadata record of its identifier whenever that record exists and
  has the key, the empty text included; the placeholder \<open>Source num\<close> is the title only
  when there is no record or the record lacks the key. Likewise the url is the \<open>'url'\<close>
  of the record, and empty only by default or because the record says so.
\<close>

theorem clean_citations_defaults:
  assumes "cid \<in> set (cite_ids text)"
  shows "(\<exists>num r. (num, r) \<in> set (snd (clean_citations text use_html md)) \<and> ref_id r = cid)
       \<and> (\<forall>(num, r) \<in> set (snd (clean_citations text use_html md)).
            ref_title r =
              (case map_of md (ref_id r) of
                 None \<Rightarrow> u ''Source '' @ str_nat num
               | Some m \<Rightarrow> (case meta_title m of
                              None \<Rightarrow> u ''Source '' @ str_nat num
                            | Some t \<Rightarrow> t))
          \<and> ref_url r =
              (case map_of md (ref_id r) of
                 None \<Rightarrow> []
               | Some m \<Rightarrow> (case meta_url m of None \<Rightarrow> [] | Some v \<Rightarrow> v)))"
proof -
  from assms have "cid \<in> set (first_seen (cite_ids text))"
    by (simp add: set_first_seen)
  then show ?thesis
    by (force simp: clean_citations_char Let_def title_of_def url_of_def)
qed

text \<open>
  A record with an empty title and an empty url: the entry has the empty title, not
  \<open>Source 1\<close>.
\<close>

theorem clean_citations_defaults_witness:
  "u ''turn1search0'' \<in> set (cite_ids example_text)
   \<and> snd (clean_citations example_text True
             [(u ''turn1search0'', \<lparr>meta_url = Some [], meta_title = Some []\<rparr>)]) =
       [(1, \<lparr>ref_id = u ''turn1search0'', ref_url = [], ref_title = []\<rparr>)]"
  using clean_citations_defaults [of "u ''turn1search0''" example_text True
          "[(u ''turn1search0'', \<lparr>meta_url = Some [], meta_title = Some []\<rparr>)]"]
  by (simp add: clean_citations_char cite_ids_def scan_example first_seen_def
      url_of_def title_of_def u_def Let_def)

subsection \<open>The fold of the consumer\<close>

lemma fold_events_snoc:
  "fold_events ud (evs @ [e]) = handle_event ud (fold_events ud evs) e"
  by (simp add: fold_events_def)

lemma got_streaming_iff:
  "got_streaming (fold_events ud evs) \<longleftrightarrow> (\<exists>c. Content c \<in> set evs)"
proof (induction evs rule: rev_induct)
  case Nil
  then show ?case by (simp add: fold_events_def init_turn_def)
next
  case (snoc e evs)
  then show ?case by (cases e) (auto simp: fold_events_snoc)
qed

text \<open>
  Claim C3. In the fold over the tuples of one turn, \<open>got_streaming\<close> holds exactly when
  a \<open>'content'\<close> tuple has been seen. Once one has been seen, a \<open>'final_content'\<close>
  tuple changes neither the parts nor the accumulated text; when none has been seen, it
  replaces the parts by its text alone.
\<close>

theorem final_content_gate:
  "(got_streaming (fold_events ud evs) \<longleftrightarrow> (\<exists>c. Content c \<in> set evs))
   \<and> ((\<exists>c. Content c \<in> set evs) \<longrightarrow>
        content_parts (fold_events ud (evs @ [Final_content txt])) = content_parts (fold_events ud evs)
        \<and> accumulated (fold_events ud (evs @ [Final_content txt])) = accumulated (fold_events ud evs))
   \<and> ((\<forall>c. Content c \<notin> set evs) \<longrightarrow>
        content_parts (fold_events ud (evs @ [Final_content txt])) = [txt]
        \<and> accumulated (fold_events ud (evs @ [Final_content txt])) = txt)"
  using got_streaming_iff [of ud evs]
  by (auto simp: fold_events_snoc accumulated_def)

text \<open>Both cases at concrete turns: a final text after a chunk, and after a status only.\<close>

theorem final_content_gate_witness:
  "got_streaming (fold_events ascii_db [Content (u ''a'')])
   \<and> accumulated (fold_events ascii_db ([Content (u ''a'')] @ [Final_content (u ''b'')])) = u ''a''
   \<and> accumulated (fold_events ascii_db ([Status (u ''s'')] @ [Final_content (u ''b'')])) = u ''b''"
  using final_content_gate [of ascii_db "[Content (u ''a'')]" "u ''b''"]
        final_content_gate [of ascii_db "[Status (u ''s'')]" "u ''b''"]
  by (simp add: fold_events_def init_turn_def accumulated_def)

subsection \<open>The generator\<close>

lemma send_loop_client: "fst (send_loop ud self replies ending) = self"
  by (induction replies) (auto simp: Let_def split: prod.splits flow.splits)

lemma handle_reply_end:
  "a_type reply = End_of_conversation \<Longrightarrow>
   handle_reply ud reply = ([Status (u ''Conversation ended.'')], Break)"
  by (simp add: handle_reply_def Let_def)

lemma handle_reply_break:
  "snd (handle_reply ud reply) = Break \<Longrightarrow> a_type reply = End_of_conversation"
  by (auto simp: handle_reply_def Let_def split: prod.splits option.splits if_splits)

lemma handle_reply_next:
  assumes "a_type reply \<noteq> End_of_conversation"
    and "\<forall>e. snd (handle_reply ud reply) \<noteq> Raise e"
  shows "snd (handle_reply ud reply) = Next"
proof (cases "snd (handle_reply ud reply)")
  case Next
  then show ?thesis .
next
  case Break
  with assms(1) show ?thesis by (auto dest: handle_reply_break)
next
  case (Raise e)
  with assms(2) show ?thesis by simp
qed

lemma send_loop_prefix:
  assumes "\<forall>a \<in> set pre. snd (handle_reply ud a) = Next"
  shows "send_loop ud self (pre @ rest) ending =
           (self, concat (map (\<lambda>a. fst (handle_reply ud a)) pre)
                  @ fst (snd (send_loop ud self rest ending)),
            snd (snd (send_loop ud self rest ending)))"
  using assms
proof (induction pre)
  case Nil
  have "fst (send_loop ud self rest ending) = self" by (rule send_loop_client)
  then show ?case by (cases "send_loop ud self rest ending") simp
next
  case (Cons a pre)
  obtain ys how where hr: "handle_reply ud a = (ys, how)" by (cases "handle_reply ud a")
  with Cons.prems have "how = Next" by simp
  with Cons hr show ?case by simp
qed

lemma send_loop_break:
  assumes "a_type eoc = End_of_conversation"
    and "\<forall>a \<in> set pre. a_type a \<noteq> End_of_conversation"
    and "\<forall>a \<in> set pre. \<forall>e. snd (handle_reply ud a) \<noteq> Raise e"
  shows "send_loop ud self (pre @ eoc # post) ending =
           (self, concat (map (\<lambda>a. fst (handle_reply ud a)) pre)
                  @ [Status (u ''Conversation ended.'')], None)"
proof -
  from assms(2,3) have "\<forall>a \<in> set pre. snd (handle_reply ud a) = Next"
    by (auto intro: handle_reply_next)
  from send_loop_prefix [OF this, of self "eoc # post" ending] show ?thesis
    by (simp add: handle_reply_end [OF assms(1)])
qed

text \<open>
  The other way out of the loop: when a reply raises before any end of conversation,
  the tuples yielded so far stay yielded and the error propagates.
\<close>

lemma send_loop_raise:
  assumes "\<forall>a \<in> set pre. snd (handle_reply ud a) = Next"
    and "snd (handle_reply ud bad) = Raise e"
  shows "send_loop ud self (pre @ bad # post) ending =
           (self, concat (map (\<lambda>a. fst (handle_reply ud a)) pre) @ fst (handle_reply ud bad),
            Some e)"
proof -
  obtain ys where "handle_reply ud bad = (ys, Raise e)"
    using assms(2) by (cases "handle_reply ud bad") simp
  with send_loop_prefix [OF assms(1), of self "bad # post" ending] show ?thesis
    by simp
qed

lemma null_task_raises:
  "snd (handle_reply ud null_task_activity) = Raise TypeError"
  "fst (handle_reply ud null_task_activity) = []"
  by (simp_all add: handle_reply_def null_task_activity_def plain_activity_def value_events_def
      thought_events_def u_Nil_iff Let_def)

text \<open>
  Claim C4. When the conversation identifier is not set (\<open>None\<close> or the empty text),
  \<open>send_message\<close> yields the single tuple \<open>'content'\<close> with the error text and ends
  without raising; the transport is not asked, and the client is unchanged.
\<close>

theorem send_without_conversation:
  "\<not> truthy (conversation_id self) \<Longrightarrow>
   send_message ud self message =
     (self, [Content (u ''Error: No active conversation.'')], None)"
  by (cases "conversation_id self") (auto simp: send_message_def)

text \<open>A client that was never started.\<close>

theorem send_without_conversation_witness:
  "\<not> truthy (conversation_id fresh_client)
   \<and> send_message ascii_db fresh_client (u ''hello'') =
       (fresh_client, [Content (u ''Error: No active conversation.'')], None)"
  using send_without_conversation [of fresh_client ascii_db "u ''hello''"]
  by (simp add: fresh_client_def)

text \<open>
  Claim C10. For every message and every behaviour of the transport, the client after
  \<open>send_message\<close> is the client before it; in particular the stored conversation
  identifier is unchanged.
\<close>

theorem send_message_frame:
  "fst (send_message ud self message) = self
   \<and> conversation_id (fst (send_message ud self message)) = conversation_id self"
  by (auto simp: send_message_def send_loop_client split: option.splits prod.splits)

text \<open>The identifier of the started example client after a send.\<close>

theorem send_message_frame_witness:
  "conversation_id (fst (send_message ascii_db example_client (u ''hello''))) = Some (u ''A'')"
  using send_message_frame [of ascii_db example_client "u ''hello''"]
  by (simp add: example_client_def)

text \<open>
  Claim C6, as stated, asks for a tuple after the status. On the example stream the
  generator yields the chunk and the status and nothing else: the status is the last
  tuple, and no tuple of the generator marks the end of the turn.
\<close>

theorem end_of_conversation_counterexample:
  "fst (snd (send_message ascii_db example_client (u ''hello''))) =
     [Content (u ''Bye''), Status (u ''Conversation ended.'')]
   \<and> last (fst (snd (send_message ascii_db example_client (u ''hello'')))) =
       Status (u ''Conversation ended.'')"
  by (simp add: send_message_def example_client_def fresh_client_def u_def handle_reply_def
      end_activity_def delta_activity_def typing_events_def channel_data_of_def
      plain_activity_def Let_def)

text \<open>
  Claim C6, amended. When the stream of replies reaches its first end-of-conversation
  activity and no reply before it has raised, \<open>send_message\<close> yields what the replies
  before it produce, then the status \<open>Conversation ended.\<close> as its last tuple, and
  ends without an error, whatever follows in the stream and however the stream would
  end. (When a reply before it raises, the activity is never reached: \<open>send_loop_raise\<close>.)
\<close>

theorem end_of_conversation_stops:
  assumes "conversation_id self = Some cid" and "cid \<noteq> []"
    and "sdk_ask_question self message cid = (pre @ eoc # post, ending)"
    and "a_type eoc = End_of_conversation"
    and "\<forall>a \<in> set pre. a_type a \<noteq> End_of_conversation"
    and "\<forall>a \<in> set pre. \<forall>e. snd (handle_reply ud a) \<noteq> Raise e"
  shows "send_message ud self message =
           (self, concat (map (\<lambda>a. fst (handle_reply ud a)) pre)
                  @ [Status (u ''Conversation ended.'')], None)"
  using assms(1-3) send_loop_break [OF assms(4,5,6)]
  by (simp add: send_message_def)

text \<open>The example stream: one chunk, the end of the conversation, a reply never read.\<close>

theorem end_of_conversation_stops_witness:
  "conversation_id example_client = Some (u ''A'')
   \<and> sdk_ask_question example_client (u ''hello'') (u ''A'') =
       ([delta_activity (u ''Bye'')] @ end_activity # [delta_activity (u ''lost'')], Raises)
   \<and> a_type end_activity = End_of_conversation
   \<and> a_type (delta_activity (u ''Bye'')) = Typing
   \<and> snd (handle_reply ascii_db (delta_activity (u ''Bye''))) = Next
   \<and> send_message ascii_db example_client (u ''hello'') =
       (example_client, [Content (u ''Bye''), Status (u ''Conversation ended.'')], None)"
  using end_of_conversation_stops [of example_client "u ''A''" "u ''hello''"
          "[delta_activity (u ''Bye'')]" end_activity "[delta_activity (u ''lost'')]" Raises ascii_db]
  by (simp add: example_client_def fresh_client_def end_activity_def delta_activity_def
      plain_activity_def handle_reply_def typing_events_def channel_data_of_def u_def Let_def)

lemma conversations_Cons:
  "conversations (a # acts) =
     (case a_conversation a of None \<Rightarrow> conversations acts | Some c \<Rightarrow> c # conversations acts)"
  by (simp add: conversations_def List.map_filter_simps split: option.splits)

lemma texts_Cons:
  "texts (a # acts) =
     (case a_text a of None \<Rightarrow> texts acts
      | Some t \<Rightarrow> if t \<noteq> [] then t # texts acts else texts acts)"
  by (simp add: texts_def List.map_filter_simps split: option.splits)

lemma start_loop_char:
  "start_loop acts w self =
     (w @ concat (map (\<lambda>t. t @ [newline]) (texts acts)),
      self\<lparr>conversation_id :=
             (if conversations acts = [] then conversation_id self
              else conv_id (last (conversations acts)))\<rparr>)"
proof (induction acts arbitrary: w self)
  case Nil
  then show ?case by (simp add: texts_def conversations_def List.map_filter_simps)
next
  case (Cons a acts)
  show ?case
    by (cases "a_text a"; cases "a_conversation a")
       (simp_all add: Cons.IH texts_Cons conversations_Cons)
qed

text \<open>
  Claim C5, amended. After \<open>start_conversation\<close> the stored identifier is that of the
  last activity of the stream that carries a conversation reference (the old one when no
  activity does). When the stream is exhausted the operation returns \<open>None\<close> exactly
  when no activity has a non-empty text, and otherwise the texts, each followed by a
  newline, concatenated and stripped of white space at both ends; when the stream
  raises, the error propagates.
\<close>

theorem start_conversation_result:
  "(let (acts, ending) = sdk_start_conversation self;
        (self', result) = start_conversation self
    in conversation_id self' =
         (if conversations acts = [] then conversation_id self
          else conv_id (last (conversations acts)))
       \<and> result =
         (case ending of
            Raises \<Rightarrow> Inl TransportError
          | Exhausted \<Rightarrow>
              Inr (if texts acts = [] then None
                   else Some (strip (concat (map (\<lambda>t. t @ [newline]) (texts acts)))))))"
proof -
  have "concat (map (\<lambda>t. t @ [newline]) ts) = [] \<longleftrightarrow> ts = []" for ts :: "ustring list"
    by (cases ts) auto
  then show ?thesis
    by (simp add: start_conversation_def start_loop_char Let_def split: prod.splits stream_end.splits)
qed

text \<open>The example greeting: two texts, two references.\<close>

theorem start_conversation_result_witness:
  "start_conversation fresh_client =
     (fresh_client\<lparr>conversation_id := Some (u ''B'')\<rparr>,
      Inr (Some (u ''Hi'' @ [newline] @ u ''there'')))"
  using start_conversation_result [of fresh_client]
  by (simp add: start_conversation_def fresh_client_def greeting_def plain_activity_def
      strip_def isspace_def newline_def u_def Let_def)

text \<open>
  Claim C5, as stated, fails: the stream carries the references \<open>A\<close> then \<open>B\<close>, and
  the identifier recorded is \<open>B\<close>, not the first-seen \<open>A\<close>.
\<close>

theorem first_seen_id_counterexample:
  "map conv_id (conversations (fst (sdk_start_conversation fresh_client))) =
     [Some (u ''A''), Some (u ''B'')]
   \<and> conversation_id (fst (start_conversation fresh_client)) = Some (u ''B'')
   \<and> conversation_id (fst (start_conversation fresh_client)) \<noteq>
       conv_id (hd (conversations (fst (sdk_start_conversation fresh_client))))"
  by (simp add: start_conversation_def fresh_client_def greeting_def plain_activity_def
      conversations_def List.map_filter_simps u_def Let_def)

subsection \<open>Merging citation records\<close>

lemma map_of_dict_update:
  "distinct (map fst e) \<Longrightarrow>
   map_of (dict_update d e) k = (case map_of e k of None \<Rightarrow> map_of d k | Some v \<Rightarrow> Some v)"
proof (induction e arbitrary: d)
  case Nil
  then show ?case by (simp add: dict_update_def)
next
  case (Cons kv e)
  obtain k0 v0 where kv: "kv = (k0, v0)" by (cases kv)
  from Cons.prems kv have fresh: "map_of e k0 = None"
    by (simp add: map_of_eq_None_iff)
  from Cons.prems have "distinct (map fst e)" by simp
  from Cons.IH [OF this, of "dict_set k0 v0 d"]
  have "map_of (dict_update (dict_set k0 v0 d) e) k =
          (case map_of e k of None \<Rightarrow> map_of (dict_set k0 v0 d) k | Some v \<Rightarrow> Some v)" .
  moreover have "dict_update d (kv # e) = dict_update (dict_set k0 v0 d) e"
    by (simp add: dict_update_def kv)
  ultimately show ?case
    using fresh by (auto simp: kv dict_set_def update_conv' split: option.splits)
qed

lemma map_of_enriched:
  "map_of (map (\<lambda>(cite_id, cite_info). (cite_id, f cite_id cite_info)) m) k =
     map_option (f k) (map_of m k)"
  by (induction m) auto

lemma keys_enriched:
  "map fst (map (\<lambda>(cite_id, cite_info). (cite_id, f cite_id cite_info)) m) = map fst m"
  by (induction m) auto

lemma citations_lookup:
  assumes "distinct (map fst m)"
  shows "map_of (citation_metadata (handle_event ud t (Citations m))) k =
           (case map_of m k of
              None \<Rightarrow> map_of (citation_metadata t) k
            | Some info \<Rightarrow> Some (enrich ud (search_results t) k info))"
proof -
  have "distinct (map fst (map (\<lambda>(cite_id, cite_info).
           (cite_id, enrich ud (search_results t) cite_id cite_info)) m))"
    using assms by (simp only: keys_enriched)
  from map_of_dict_update [OF this] show ?thesis
    by (simp add: map_of_enriched split: option.splits)
qed

lemma observed_results_snoc:
  "observed_results (evs @ [e]) =
     observed_results evs @ (case e of Search_result sr \<Rightarrow> [sr] | _ \<Rightarrow> [])"
  by (induction evs rule: observed_results.induct) (auto split: event.splits)

lemma search_results_fold:
  "search_results (fold_events ud evs) = observed_results evs"
proof (induction evs rule: rev_induct)
  case Nil
  then show ?case by (simp add: fold_events_def init_turn_def)
next
  case (snoc e evs)
  then show ?case by (cases e) (simp_all add: fold_events_snoc observed_results_snoc)
qed

text \<open>
  Claim C1, amended. Merging a \<open>'citations'\<close> tuple (a dict, so with distinct keys) into
  the table of the turn replaces the whole record of every identifier of the tuple by the
  incoming record, cross-linked with the search results seen so far, whether or not the
  old record had a url or a title; the record of every other identifier is kept.
\<close>

theorem citation_merge_replaces:
  assumes "distinct (map fst m)"
  shows "map_of (citation_metadata (fold_events ud (evs @ [Citations m]))) k =
           (case map_of m k of
              None \<Rightarrow> map_of (citation_metadata (fold_events ud evs)) k
            | Some info \<Rightarrow> Some (enrich ud (observed_results evs) k info))"
  using citations_lookup [OF assms, of ud "fold_events ud evs" k]
  by (simp add: fold_events_snoc search_results_fold cong: option.case_cong)

text \<open>
  Claim C7, amended. For a record of a \<open>'citations'\<close> tuple whose identifier the pattern
  matches with number \<open>n\<close> and whose url is empty: if a search result with index \<open>n\<close>
  was observed earlier in the turn, the merged record has the url of the first such
  result, and its title when the record's own title is empty (a title of its own is
  kept); if none was observed, the merged record is the incoming one, its url empty.
\<close>

theorem cross_link:
  assumes "(cite_id, info) \<in> set m" and "distinct (map fst m)"
    and "search_index ud cite_id = Some n" and "\<not> truthy (meta_url info)"
  shows "map_of (citation_metadata (fold_events ud (evs @ [Citations m]))) cite_id =
           Some (case find (\<lambda>sr. sr_index sr = n) (observed_results evs) of
                   None \<Rightarrow> info
                 | Some sr \<Rightarrow>
                     \<lparr>meta_url = Some (sr_url sr),
                      meta_title = (if truthy (meta_title info) then meta_title info
                                    else Some (sr_title sr))\<rparr>)"
proof -
  from assms(1,2) have "map_of m cite_id = Some info" by simp
  with citations_lookup [OF assms(2), of ud "fold_events ud evs" cite_id]
  have "map_of (citation_metadata (fold_events ud (evs @ [Citations m]))) cite_id =
          Some (enrich ud (observed_results evs) cite_id info)"
    by (simp add: fold_events_snoc search_results_fold)
  also have "enrich ud (observed_results evs) cite_id info =
      (case find (\<lambda>sr. sr_index sr = n) (observed_results evs) of
                   None \<Rightarrow> info
                 | Some sr \<Rightarrow>
                     \<lparr>meta_url = Some (sr_url sr),
                      meta_title = (if truthy (meta_title info) then meta_title info
                                    else Some (sr_title sr))\<rparr>)"
    using assms(3,4) by (cases info) (simp add: enrich_def Let_def split: option.splits)
  finally show ?thesis .
qed

lemma search_index_example: "search_index ascii_db (u ''turn1search3'') = Some 3"
  by (simp add: search_index_def match_search_def u_def ascii_db_def at_end_def newline_def
      int_of_digits_def)

lemma search_index_plain: "search_index ascii_db (u ''doc1'') = None" "search_index ascii_db (u ''doc2'') = None"
  by (simp_all add: search_index_def match_search_def u_def ascii_db_def)

text \<open>
  Claim C1, as stated, fails: a second \<open>'citations'\<close> tuple for the same identifier
  replaces the non-empty url and title recorded by the first.
\<close>

theorem citation_overwrite_counterexample:
  "map_of (citation_metadata (fold_events ascii_db
     [Citations [(u ''doc1'', \<lparr>meta_url = Some (u ''https://old''), meta_title = Some (u ''Old'')\<rparr>)]]))
     (u ''doc1'') = Some \<lparr>meta_url = Some (u ''https://old''), meta_title = Some (u ''Old'')\<rparr>
   \<and> map_of (citation_metadata (fold_events ascii_db
     [Citations [(u ''doc1'', \<lparr>meta_url = Some (u ''https://old''), meta_title = Some (u ''Old'')\<rparr>)],
      Citations [(u ''doc1'', \<lparr>meta_url = Some (u ''https://new''), meta_title = Some (u ''New'')\<rparr>)]]))
     (u ''doc1'') = Some \<lparr>meta_url = Some (u ''https://new''), meta_title = Some (u ''New'')\<rparr>"
  by (simp add: fold_events_def init_turn_def dict_update_def dict_set_def enrich_def
      search_index_plain u_eq_iff u_Nil_iff)

text \<open>A merge for another identifier: the old record is kept, the new one is added.\<close>

theorem citation_merge_replaces_witness:
  "map_of (citation_metadata (fold_events ascii_db
     ([Citations [(u ''doc1'', \<lparr>meta_url = Some (u ''https://old''), meta_title = Some (u ''Old'')\<rparr>)]]
      @ [Citations [(u ''doc2'', \<lparr>meta_url = Some [], meta_title = Some (u ''Two'')\<rparr>)]])))
     (u ''doc1'') = Some \<lparr>meta_url = Some (u ''https://old''), meta_title = Some (u ''Old'')\<rparr>
   \<and> map_of (citation_metadata (fold_events ascii_db
     ([Citations [(u ''doc1'', \<lparr>meta_url = Some (u ''https://old''), meta_title = Some (u ''Old'')\<rparr>)]]
      @ [Citations [(u ''doc2'', \<lparr>meta_url = Some [], meta_title = Some (u ''Two'')\<rparr>)]])))
     (u ''doc2'') = Some \<lparr>meta_url = Some [], meta_title = Some (u ''Two'')\<rparr>"
  using citation_merge_replaces [of "[(u ''doc2'', \<lparr>meta_url = Some [], meta_title = Some (u ''Two'')\<rparr>)]"
          ascii_db
          "[Citations [(u ''doc1'', \<lparr>meta_url = Some (u ''https://old''), meta_title = Some (u ''Old'')\<rparr>)]]"
          "u ''doc1''"]
        citation_merge_replaces [of "[(u ''doc2'', \<lparr>meta_url = Some [], meta_title = Some (u ''Two'')\<rparr>)]"
          ascii_db
          "[Citations [(u ''doc1'', \<lparr>meta_url = Some (u ''https://old''), meta_title = Some (u ''Old'')\<rparr>)]]"
          "u ''doc2''"]
  by (simp add: fold_events_def init_turn_def dict_update_def dict_set_def enrich_def
      search_index_plain u_eq_iff u_Nil_iff)

text \<open>
  Claim C7, as stated, fails for the title: a record with a title of its own takes the
  url of the search result and keeps its title.
\<close>

theorem cross_link_title_counterexample:
  "map_of (citation_metadata (fold_events ascii_db
     [Search_result example_hit,
      Citations [(u ''turn1search3'', \<lparr>meta_url = Some [], meta_title = Some (u ''Own title'')\<rparr>)]]))
     (u ''turn1search3'') =
     Some \<lparr>meta_url = Some (u ''https://x''), meta_title = Some (u ''Own title'')\<rparr>"
  by (simp add: fold_events_def init_turn_def dict_update_def dict_set_def enrich_def
      search_index_example example_hit_def Let_def u_Nil_iff)

text \<open>A record with no url and no title, after a result with index 3 and after none.\<close>

theorem cross_link_witness:
  "map_of (citation_metadata (fold_events ascii_db
     ([Search_result example_hit]
      @ [Citations [(u ''turn1search3'', \<lparr>meta_url = Some [], meta_title = Some []\<rparr>)]])))
     (u ''turn1search3'') =
     Some \<lparr>meta_url = Some (u ''https://x''), meta_title = Some (u ''X'')\<rparr>
   \<and> map_of (citation_metadata (fold_events ascii_db
     ([] @ [Citations [(u ''turn1search3'', \<lparr>meta_url = Some [], meta_title = Some []\<rparr>)]])))
     (u ''turn1search3'') = Some \<lparr>meta_url = Some [], meta_title = Some []\<rparr>"
  using cross_link [of "u ''turn1search3''" "\<lparr>meta_url = Some [], meta_title = Some []\<rparr>"
          "[(u ''turn1search3'', \<lparr>meta_url = Some [], meta_title = Some []\<rparr>)]" ascii_db 3
          "[Search_result example_hit]"]
        cross_link [of "u ''turn1search3''" "\<lparr>meta_url = Some [], meta_title = Some []\<rparr>"
          "[(u ''turn1search3'', \<lparr>meta_url = Some [], meta_title = Some []\<rparr>)]" ascii_db 3 "[]"]
  by (simp add: search_index_example example_hit_def)

subsection \<open>The task label\<close>

lemma after_last_Cons:
  "after_last sep (x # xs) =
     (if sep \<in> set xs then after_last sep xs else if x = sep then xs else x # xs)"
proof (cases "sep \<in> set xs")
  case True
  then have "\<not> (\<forall>c \<in> set (rev xs). c \<noteq> sep)" by auto
  then obtain c where "c \<in> set (rev xs)" "\<not> c \<noteq> sep" by blast
  then have "takeWhile (\<lambda>c. c \<noteq> sep) (rev xs @ [x]) = takeWhile (\<lambda>c. c \<noteq> sep) (rev xs)"
    by (rule takeWhile_append1)
  with True show ?thesis by (simp add: after_last_def)
next
  case False
  then have "\<And>c. c \<in> set (rev xs) \<Longrightarrow> c \<noteq> sep" by auto
  then have "takeWhile (\<lambda>c. c \<noteq> sep) (rev xs @ [x]) = rev xs @ takeWhile (\<lambda>c. c \<noteq> sep) [x]"
    by (rule takeWhile_append2)
  with False show ?thesis by (simp add: after_last_def)
qed

lemma last_split_acc:
  "last (split_acc sep cur s) = (if sep \<in> set s then after_last sep s else cur @ s)"
proof (induction s arbitrary: cur)
  case Nil
  then show ?case by simp
next
  case (Cons x xs)
  have ne: "split_acc sep c xs \<noteq> []" for c by (induction xs arbitrary: c) auto
  show ?case by (simp add: Cons.IH after_last_Cons ne)
qed

lemma last_split: "sep \<in> set s \<Longrightarrow> last (split sep s) = after_last sep s"
  by (simp add: split_def last_split_acc)

lemma after_last_subset: "set (after_last sep s) \<subseteq> set s - {sep}"
  by (auto simp: after_last_def dest: set_takeWhileD)

lemma replace_absent:
  assumes "c \<in> set old" and "c \<notin> set s"
  shows "replace old new s = s"
  using assms(2)
proof (induction s)
  case Nil
  with assms(1) show ?case by auto
next
  case (Cons x xs)
  from assms(1) have ne: "old \<noteq> []" by auto
  have "\<not> prefix old (x # xs)"
  proof
    assume "prefix old (x # xs)"
    then have "set old \<subseteq> set (x # xs)" by (rule set_mono_prefix)
    with assms(1) Cons.prems show False by auto
  qed
  with Cons ne show ?case by simp
qed

lemma task_segment_no_colon: "of_char CHR '':'' \<notin> set (task_segment task_id)"
  using after_last_subset [of "of_char CHR '':''" task_id]
        after_last_subset [of "of_char CHR ''.''" task_id]
  by (auto simp: task_segment_def)

lemma task_name_of_char:
  "task_name_of task_id = replace (u ''-InvokeServer'') [] (task_segment task_id)"
proof -
  have seg: "(if of_char CHR '':'' \<in> set task_id then last (split (of_char CHR '':'') task_id)
       else if of_char CHR ''.'' \<in> set task_id then last (split (of_char CHR ''.'') task_id)
       else task_id) = task_segment task_id"
    by (simp add: task_segment_def last_split)
  have "of_char CHR '':'' \<in> set (u ''P:'')" by (simp add: u_def)
  from replace_absent [OF this task_segment_no_colon]
  have p: "replace (u ''P:'') [] (task_segment task_id) = task_segment task_id" .
  show ?thesis unfolding task_name_of_def Let_def seg p ..
qed

text \<open>
  Claim C8, amended. For a thought whose task identifier is a text (the text under
  \<open>taskDialogId\<close>, or the default \<open>''\<close> when the key is absent), the task label is the part
  of the identifier after its last colon, else after its last dot, else the identifier,
  with every occurrence of \<open>-InvokeServer\<close> deleted wherever it stands; deleting \<open>P:\<close>
  changes nothing, since that part has no colon. The state is yielded as it is read,
  \<open>None\<close> for a null. (A null identifier raises instead: \<open>null_task_id_raises\<close>.)
\<close>

theorem task_label:
  assumes "thought value = Some th" and "th \<noteq> []"
    and "get_leaf (taskDialogId value) [] = Some task_id"
  shows "thought_events value =
           Inr [Thought \<lparr>th_text = th,
                         th_task = replace (u ''-InvokeServer'') [] (task_segment task_id),
                         th_state = get_leaf (state value) []\<rparr>]
         \<and> replace (u ''P:'') [] (task_segment task_id) = task_segment task_id"
proof -
  have "of_char CHR '':'' \<in> set (u ''P:'')" by (simp add: u_def)
  from replace_absent [OF this task_segment_no_colon] assms show ?thesis
    by (simp add: thought_events_def task_name_of_char)
qed

lemma null_task_id_raises:
  assumes "thought value = Some th" and "th \<noteq> []" and "taskDialogId value = Null"
  shows "thought_events value = Inl TypeError"
  using assms by (simp add: thought_events_def)

lemma task_name_examples:
  "task_name_of (u ''Agent.action.Server-InvokeServer:list_quests'') = u ''list_quests''"
  "task_name_of (u ''P:UniversalSearchTool'') = u ''UniversalSearchTool''"
  "task_name_of (u ''Agent.action.Server-InvokeServer'') = u ''Server''"
  by (simp_all add: task_name_of_def split_def u_def Let_def)

text \<open>An identifier without a colon that ends in the marker.\<close>

theorem task_label_witness:
  "get_leaf (taskDialogId (example_value (u ''Agent.action.Server-InvokeServer''))) [] =
     Some (u ''Agent.action.Server-InvokeServer'')
   \<and> thought_events (example_value (u ''Agent.action.Server-InvokeServer'')) =
       Inr [Thought \<lparr>th_text = u ''Looking up'', th_task = u ''Server'',
                     th_state = Some (u ''started'')\<rparr>]"
  using task_label [of "example_value (u ''Agent.action.Server-InvokeServer'')" "u ''Looking up''"
          "u ''Agent.action.Server-InvokeServer''"]
  by (simp add: example_value_def thought_events_def task_name_examples u_Nil_iff)

text \<open>
  Claim C8, as stated, fails: with the marker in the middle of the last segment, the
  code deletes it, while stripping it as a suffix leaves the segment as it is.
\<close>

theorem task_label_counterexample:
  "task_name_of (u ''Agent.Tool-InvokeServerV2'') = u ''ToolV2''
   \<and> task_label_spec (u ''Agent.Tool-InvokeServerV2'') = u ''Tool-InvokeServerV2''
   \<and> task_name_of (u ''Agent.Tool-InvokeServerV2'') \<noteq> task_label_spec (u ''Agent.Tool-InvokeServerV2'')"
  by (simp add: task_name_of_def task_label_spec_def task_segment_def after_last_def
      strip_prefix_def strip_suffix_def suffix_to_prefix split_def u_def Let_def)

end
